theory Spec2Isabelle
  imports Main "HOL-Library.Sublist"
begin

section \<open>Python values, exceptions and console output\<close>

text \<open>
  The values \<^verbatim>\<open>json.load\<close> can return.  A JSON object is kept as the list of its
  members in document order; Python's dict keeps the last value of a repeated key.
  Numbers are only ever compared and counted here, never computed with.
\<close>

datatype json =
    JNull
  | JBool bool
  | JNum int
  | JStr string
  | JArr "json list"
  | JObj "(string \<times> json) list"

datatype py_exception = TypeError | AttributeError | IndexError | OSError

text \<open>
  How a call of \<^verbatim>\<open>main(config)\<close> ends: one of its three \<^verbatim>\<open>return\<close>s, a
  \<^verbatim>\<open>sys.exit(n)\<close> raised by a loader or by \<^verbatim>\<open>save_state\<close>, or an exception nobody
  catches.
\<close>

datatype outcome =
    AllProcessed
  | NoOriginalFolders
  | BatchComplete
  | SysExit nat
  | Uncaught py_exception

fun exit_status :: "outcome \<Rightarrow> nat" where
  "exit_status AllProcessed = 0"
| "exit_status NoOriginalFolders = 0"
| "exit_status BatchComplete = 0"
| "exit_status (SysExit n) = n"
| "exit_status (Uncaught x) = 1"

text \<open>One constructor per \<^verbatim>\<open>print\<close> of the program, with the values it interpolates.\<close>

datatype event =
    ErrorLoadingLocations
  | ErrorLoadingState
  | ErrorSavingState
  | TotalLocations nat
  | AlreadyProcessed nat
  | AllLocationsProcessed
  | ProcessingRange nat nat nat
  | TotalOriginalFolders nat
  | NoOriginalFoldersFound
  | FolderExists string
  | CreatedFolder string
  | ErrorCreatingFolder string
  | SelectingFrom string
  | NotEnoughImages string int nat
  | Copied string string
  | ErrorCopying string string
  | FinishedLocation string string
  | BatchProcessingComplete nat

section \<open>The files and folders a run works on\<close>

text \<open>
  The state file: absent, present but rejected by \<^verbatim>\<open>json.load\<close>, or present with a
  JSON document.
\<close>

datatype state_doc = Missing | Garbled | Content json

text \<open>
  The four paths of the configuration name four separate places, each a field here:
  \<^item> \<open>catalog_file\<close>: what \<^verbatim>\<open>json.load(...)['locations']\<close> yields for the catalog
    file, a list of strings, or \<open>None\<close> when opening, parsing or the lookup raises;
  \<^item> \<open>state_file\<close>: the state file;
  \<^item> \<open>source_listing\<close>: \<^verbatim>\<open>os.listdir(source_dir)\<close>, every name with the answer of
    \<^verbatim>\<open>os.path.isdir\<close>, or \<open>None\<close> when the listing raises;
  \<^item> \<open>image_files\<close>: for a source folder, the sorted image names that
    \<^verbatim>\<open>get_image_files\<close> returns, or \<open>None\<close> when its \<^verbatim>\<open>os.listdir\<close> raises;
  \<^item> \<open>target\<close>: the entries of the target directory (\<open>None\<close> when it does not exist),
    every folder with its files, every file with the source folder it was copied from
    and whether the copy is complete.
\<close>

record world =
  catalog_file :: "string list option"
  state_file :: state_doc
  source_listing :: "(string \<times> bool) list option"
  image_files :: "string \<Rightarrow> string list option"
  target :: "(string \<rightharpoonup> (string \<rightharpoonup> string \<times> bool)) option"

text \<open>
  What the operating system refuses during one run: creating the target directory,
  creating the folder of the batch entry at a given index, copying a given image for the
  entry at a given index (refused before the destination is created, or after, which
  leaves a cut-off file), and writing the state file (refused at \<^verbatim>\<open>open\<close>, or after
  \<^verbatim>\<open>open(..., 'w')\<close> has truncated the file).
\<close>

datatype save_fault = NoFault | OpenFails | WriteFails

datatype copy_result = CopyDone | CopyRefused | CopyCutOff

record faults =
  target_mkdir_fails :: bool
  mkdir_fails :: "nat \<Rightarrow> bool"
  copy_outcome :: "nat \<Rightarrow> string \<Rightarrow> copy_result"
  save_fault :: save_fault

record config =
  batch_size :: int
  images_per_folder :: int

section \<open>Python primitives used by the program\<close>

text \<open>\<^verbatim>\<open>d.get(key)\<close> on the dict built from the members \<open>kvs\<close>: the last one wins.\<close>

definition dict_get :: "(string \<times> json) list \<Rightarrow> string \<Rightarrow> json option" where
  "dict_get kvs k = map_of (rev kvs) k"

text \<open>\<^verbatim>\<open>len(v)\<close>: defined on strings, lists and dicts, a TypeError elsewhere.\<close>

fun py_len :: "json \<Rightarrow> py_exception + nat" where
  "py_len (JStr s) = Inr (length s)"
| "py_len (JArr xs) = Inr (length xs)"
| "py_len (JObj kvs) = Inr (card (set (map fst kvs)))"
| "py_len v = Inl TypeError"

text \<open>
  \<^verbatim>\<open>loc in v\<close> for a string \<open>loc\<close>: an element of a list, a key of a dict, a substring of
  a string.  The program asks only after \<^verbatim>\<open>len(v)\<close> has succeeded, so the other values
  never get here.
\<close>

fun py_in :: "string \<Rightarrow> json \<Rightarrow> bool" where
  "py_in loc (JArr xs) = (JStr loc \<in> set xs)"
| "py_in loc (JObj kvs) = (loc \<in> set (map fst kvs))"
| "py_in loc (JStr s) = sublist loc s"
| "py_in loc v = False"

text \<open>\<^verbatim>\<open>v.append(loc)\<close>: only a list has the method.\<close>

fun py_append :: "json \<Rightarrow> string \<Rightarrow> py_exception + json" where
  "py_append (JArr xs) loc = Inr (JArr (xs @ [JStr loc]))"
| "py_append v loc = Inl AttributeError"

text \<open>\<^verbatim>\<open>xs[:n]\<close>: a negative \<open>n\<close> counts from the end.\<close>

definition py_slice_to :: "'a list \<Rightarrow> int \<Rightarrow> 'a list" where
  "py_slice_to xs n =
     (if 0 \<le> n then take (nat n) xs else take (length xs - nat (- n)) xs)"

text \<open>\<^verbatim>\<open>xs.index(x)\<close> for an \<open>x\<close> that occurs in \<open>xs\<close>.\<close>

fun py_index :: "'a list \<Rightarrow> 'a \<Rightarrow> nat" where
  "py_index [] x = 0"
| "py_index (y # ys) x = (if y = x then 0 else Suc (py_index ys x))"

section \<open>The functions of the program\<close>

definition load_locations :: "world \<Rightarrow> outcome + string list" where
  "load_locations w =
     (case catalog_file w of None \<Rightarrow> Inl (SysExit 1) | Some locations \<Rightarrow> Inr locations)"

text \<open>
  \<^verbatim>\<open>state.get('processed_locations', [])\<close> raises AttributeError when the document is
  not an object; \<^verbatim>\<open>except Exception\<close> turns that into \<^verbatim>\<open>sys.exit(1)\<close> like a parse
  error.
\<close>

fun load_state_doc :: "state_doc \<Rightarrow> outcome + json" where
  "load_state_doc Missing = Inr (JArr [])"
| "load_state_doc Garbled = Inl (SysExit 1)"
| "load_state_doc (Content (JObj kvs)) =
     (case dict_get kvs ''processed_locations'' of
        None \<Rightarrow> Inr (JArr [])
      | Some v \<Rightarrow> Inr v)"
| "load_state_doc (Content v) = Inl (SysExit 1)"

definition load_state :: "world \<Rightarrow> outcome + json" where
  "load_state w = load_state_doc (state_file w)"

text \<open>
  \<^verbatim>\<open>save_state\<close> returns whether it returned (\<open>True\<close>) or left through
  \<^verbatim>\<open>sys.exit(1)\<close>, and the files as they are then.  When \<^verbatim>\<open>open\<close> fails the file is
  untouched.  A write that fails after \<^verbatim>\<open>open(..., 'w')\<close> has emptied the file leaves
  the beginning of the new text and not all of it; \<^verbatim>\<open>json.load\<close> rejects such a text,
  as the section on the text of the state file shows for a list of strings.
\<close>

definition save_state :: "faults \<Rightarrow> json \<Rightarrow> world \<Rightarrow> bool \<times> world" where
  "save_state flt processed_locations w =
     (case save_fault flt of
        NoFault \<Rightarrow>
          (True, w\<lparr>state_file := Content (JObj [(''processed_locations'', processed_locations)])\<rparr>)
      | OpenFails \<Rightarrow> (False, w)
      | WriteFails \<Rightarrow> (False, w\<lparr>state_file := Garbled\<rparr>))"

definition get_original_folders :: "world \<Rightarrow> string list option" where
  "get_original_folders w =
     (case source_listing w of
        None \<Rightarrow> None
      | Some entries \<Rightarrow> Some (map fst (filter snd entries)))"

text \<open>
  \<^verbatim>\<open>get_image_files\<close> lists the folder, an \<^verbatim>\<open>os.listdir\<close> that can raise; the caller
  has no handler around it.
\<close>

definition get_image_files :: "world \<Rightarrow> string \<Rightarrow> py_exception + string list" where
  "get_image_files w folder =
     (case image_files w folder of None \<Rightarrow> Inl OSError | Some images \<Rightarrow> Inr images)"

definition str_replace :: "char \<Rightarrow> char \<Rightarrow> string \<Rightarrow> string" where
  "str_replace old new s = map (\<lambda>c. if c = old then new else c) s"

definition invalid_chars :: string where
  "invalid_chars = [CHR ''<'', CHR ''>'', CHR '':'', CHR 0x22, CHR ''/'', CHR 0x5C,
                    CHR ''|'', CHR ''?'', CHR ''*'']"

definition sanitize_folder_name :: "string \<Rightarrow> string" where
  "sanitize_folder_name folder_name =
     fold (\<lambda>char name. str_replace char CHR ''_'' name) invalid_chars folder_name"

subsection \<open>The batch planner\<close>

definition unprocessed_locations :: "string list \<Rightarrow> json \<Rightarrow> string list" where
  "unprocessed_locations locations processed_locations =
     filter (\<lambda>loc. \<not> py_in loc processed_locations) locations"

definition current_batch :: "config \<Rightarrow> string list \<Rightarrow> string list" where
  "current_batch cfg unprocessed = py_slice_to unprocessed (batch_size cfg)"

definition original_folder_for :: "string list \<Rightarrow> nat \<Rightarrow> string" where
  "original_folder_for original_folders i =
     original_folders ! (i mod length original_folders)"

definition select_images :: "config \<Rightarrow> string list \<Rightarrow> string list" where
  "select_images cfg images =
     (if int (length images) < images_per_folder cfg then images
      else py_slice_to images (images_per_folder cfg))"

subsection \<open>The folder materializer: the body of the loop over the batch\<close>

text \<open>
  What the loop changes: the entries of the target directory, the list
  \<^verbatim>\<open>processed_locations\<close> in memory, and the console.
\<close>

record run_state =
  tgt :: "string \<rightharpoonup> (string \<rightharpoonup> string \<times> bool)"
  processed :: json
  console :: "event list"

text \<open>
  \<^verbatim>\<open>os.path.exists(os.path.join(target_dir, name))\<close>, asked once the target directory
  exists.  A sanitized name holds no separator, so it names an entry of the target
  directory, or the directory itself (empty name, one dot) or its parent (two dots).
\<close>

definition path_exists :: "(string \<rightharpoonup> (string \<rightharpoonup> string \<times> bool)) \<Rightarrow> string \<Rightarrow> bool" where
  "path_exists t name = (name = [] \<or> name = ''.'' \<or> name = ''..'' \<or> t name \<noteq> None)"

definition say :: "event \<Rightarrow> run_state \<Rightarrow> run_state" where
  "say e st = st\<lparr>console := console st @ [e]\<rparr>"

definition put_file ::
  "string \<Rightarrow> string \<Rightarrow> string \<times> bool \<Rightarrow> (string \<rightharpoonup> (string \<rightharpoonup> string \<times> bool))
     \<Rightarrow> (string \<rightharpoonup> (string \<rightharpoonup> string \<times> bool))" where
  "put_file folder img content t =
     t(folder \<mapsto> (case t folder of None \<Rightarrow> Map.empty | Some files \<Rightarrow> files)(img \<mapsto> content))"

text \<open>
  The inner loop: one \<^verbatim>\<open>shutil.copy2\<close> per selected image.  A failure is printed and
  the loop goes on; the copy may have left a cut-off file by then.
\<close>

fun copy_images ::
  "faults \<Rightarrow> nat \<Rightarrow> string \<Rightarrow> string \<Rightarrow> string list \<Rightarrow> run_state \<Rightarrow> run_state" where
  "copy_images flt i original_folder new_folder_name [] st = st"
| "copy_images flt i original_folder new_folder_name (img # imgs) st =
     copy_images flt i original_folder new_folder_name imgs
       (case copy_outcome flt i img of
          CopyDone \<Rightarrow>
            say (Copied img new_folder_name)
              (st\<lparr>tgt := put_file new_folder_name img (original_folder, True) (tgt st)\<rparr>)
        | CopyRefused \<Rightarrow> say (ErrorCopying img new_folder_name) st
        | CopyCutOff \<Rightarrow>
            say (ErrorCopying img new_folder_name)
              (st\<lparr>tgt := put_file new_folder_name img (original_folder, False) (tgt st)\<rparr>))"

text \<open>\<^verbatim>\<open>processed_locations.append(location)\<close>, which a value that is no list refuses.\<close>

definition mark_processed :: "string \<Rightarrow> run_state \<Rightarrow> py_exception option \<times> run_state" where
  "mark_processed location st =
     (case py_append (processed st) location of
        Inl x \<Rightarrow> (Some x, st)
      | Inr p \<Rightarrow> (None, st\<lparr>processed := p\<rparr>))"

definition process_location ::
  "config \<Rightarrow> faults \<Rightarrow> world \<Rightarrow> string list \<Rightarrow> nat \<Rightarrow> string \<Rightarrow> run_state
     \<Rightarrow> py_exception option \<times> run_state" where
  "process_location cfg flt w original_folders i location st =
     (let new_folder_name = sanitize_folder_name location in
      if path_exists (tgt st) new_folder_name then
        mark_processed location (say (FolderExists new_folder_name) st)
      else if mkdir_fails flt i then
        (None, say (ErrorCreatingFolder new_folder_name) st)
      else
        let st1 = say (CreatedFolder new_folder_name)
                    (st\<lparr>tgt := (tgt st)(new_folder_name \<mapsto> Map.empty)\<rparr>);
            original_folder = original_folder_for original_folders i;
            st2 = say (SelectingFrom original_folder) st1
        in
        case get_image_files w original_folder of
          Inl x \<Rightarrow> (Some x, st2)
        | Inr images \<Rightarrow>
            let st3 = (if int (length images) < images_per_folder cfg
                       then say (NotEnoughImages original_folder (images_per_folder cfg)
                                   (length images)) st2
                       else st2);
                st4 = copy_images flt i original_folder new_folder_name
                        (select_images cfg images) st3;
                st5 = say (FinishedLocation location new_folder_name) st4
            in mark_processed location st5)"

text \<open>
  \<^verbatim>\<open>for i, location in enumerate(current_batch)\<close>: the index counts every entry, also
  the skipped ones.  An exception that is not caught ends the loop where it stands.
\<close>

fun process_batch ::
  "config \<Rightarrow> faults \<Rightarrow> world \<Rightarrow> string list \<Rightarrow> nat \<Rightarrow> string list \<Rightarrow> run_state
     \<Rightarrow> py_exception option \<times> run_state" where
  "process_batch cfg flt w original_folders i [] st = (None, st)"
| "process_batch cfg flt w original_folders i (location # rest) st =
     (case process_location cfg flt w original_folders i location st of
        (Some x, st') \<Rightarrow> (Some x, st')
      | (None, st') \<Rightarrow> process_batch cfg flt w original_folders (Suc i) rest st')"

subsection \<open>The run\<close>

text \<open>
  \<^verbatim>\<open>main(config)\<close>: how the run ends, the files and folders it leaves, and what it
  printed.  An empty batch makes \<^verbatim>\<open>current_batch[0]\<close> raise IndexError in the line
  that prints the range.
\<close>

definition main :: "config \<Rightarrow> faults \<Rightarrow> world \<Rightarrow> outcome \<times> world \<times> event list" where
  "main cfg flt w =
     (case load_locations w of
        Inl e \<Rightarrow> (e, w, [ErrorLoadingLocations])
      | Inr locations \<Rightarrow>
     (let out0 = [TotalLocations (length locations)] in
      case load_state w of
        Inl e \<Rightarrow> (e, w, out0 @ [ErrorLoadingState])
      | Inr processed_locations \<Rightarrow>
     (case py_len processed_locations of
        Inl x \<Rightarrow> (Uncaught x, w, out0)
      | Inr n \<Rightarrow>
     (let out1 = out0 @ [AlreadyProcessed n];
          unprocessed = unprocessed_locations locations processed_locations in
      if unprocessed = [] then (AllProcessed, w, out1 @ [AllLocationsProcessed])
      else
        let batch = current_batch cfg unprocessed in
        if batch = [] then (Uncaught IndexError, w, out1)
        else
          let out2 = out1 @ [ProcessingRange (length batch)
                               (py_index locations (hd batch))
                               (py_index locations (last batch))] in
          case get_original_folders w of
            None \<Rightarrow> (Uncaught OSError, w, out2)
          | Some original_folders \<Rightarrow>
         (let out3 = out2 @ [TotalOriginalFolders (length original_folders)] in
          if original_folders = [] then (NoOriginalFolders, w, out3 @ [NoOriginalFoldersFound])
          else if target_mkdir_fails flt \<and> target w = None then (Uncaught OSError, w, out3)
          else
            let t0 = (case target w of None \<Rightarrow> Map.empty | Some t \<Rightarrow> t);
                st0 = \<lparr>tgt = t0, processed = processed_locations, console = out3\<rparr>
            in
            case process_batch cfg flt w original_folders 0 batch st0 of
              (Some x, st) \<Rightarrow> (Uncaught x, w\<lparr>target := Some (tgt st)\<rparr>, console st)
            | (None, st) \<Rightarrow>
               (case save_state flt (processed st) (w\<lparr>target := Some (tgt st)\<rparr>) of
                  (False, w') \<Rightarrow> (SysExit 1, w', console st @ [ErrorSavingState])
                | (True, w') \<Rightarrow>
                    (BatchComplete, w',
                     console st @ [BatchProcessingComplete (length batch)])))))))"

section \<open>The text of the state file\<close>

text \<open>
  What \<^verbatim>\<open>json.dump({'processed_locations': ps}, file, indent=4)\<close> writes for a list
  \<open>ps\<close> of strings, character by character.  A character of a string is a code point
  below 256 here.  With the default \<^verbatim>\<open>ensure_ascii\<close>, the quote and the backslash
  get a backslash, five control characters their letter, and every other character
  outside the range from space to tilde the form \<^verbatim>\<open>\u00XX\<close> with lower-case hex
  digits.
\<close>

definition hex_digit :: "nat \<Rightarrow> char" where
  "hex_digit n = ''0123456789abcdef'' ! n"

definition escape_char :: "char \<Rightarrow> string" where
  "escape_char c =
     (if c = CHR 0x22 then [CHR 0x5C, CHR 0x22]
      else if c = CHR 0x5C then [CHR 0x5C, CHR 0x5C]
      else if c = CHR 0x0A then [CHR 0x5C, CHR ''n'']
      else if c = CHR 0x0D then [CHR 0x5C, CHR ''r'']
      else if c = CHR 0x09 then [CHR 0x5C, CHR ''t'']
      else if c = CHR 0x08 then [CHR 0x5C, CHR ''b'']
      else if c = CHR 0x0C then [CHR 0x5C, CHR ''f'']
      else if (of_char c :: nat) < 0x20 \<or> (0x7E :: nat) < of_char c then
        [CHR 0x5C, CHR ''u'', CHR ''0'', CHR ''0'',
         hex_digit (of_char c div 16), hex_digit (of_char c mod 16)]
      else [c])"

definition json_string :: "string \<Rightarrow> string" where
  "json_string s = [CHR 0x22] @ concat (map escape_char s) @ [CHR 0x22]"

text \<open>
  A line break and four spaces for every level of nesting.  The line break is one
  character here; where the platform writes a carriage return before it, that is one more
  character between tokens, which the scan below passes over like a space.
\<close>

definition newline_indent :: "nat \<Rightarrow> string" where
  "newline_indent level = CHR 0x0A # replicate (4 * level) CHR '' ''"

text \<open>The list, at nesting level 1: an empty list is written without a line break.\<close>

definition dump_list :: "string list \<Rightarrow> string" where
  "dump_list xs =
     (case xs of
        [] \<Rightarrow> ''[]''
      | x # rest \<Rightarrow>
          ''['' @ newline_indent 2 @ json_string x
          @ concat (map (\<lambda>y. '','' @ newline_indent 2 @ json_string y) rest)
          @ newline_indent 1 @ '']'')"

definition dump_body :: "string list \<Rightarrow> string" where
  "dump_body ps =
     newline_indent 1 @ json_string ''processed_locations'' @ '': ''
     @ dump_list ps @ newline_indent 0"

definition dump_state :: "string list \<Rightarrow> string" where
  "dump_state ps = ''{'' @ dump_body ps @ ''}''"

text \<open>
  The reader.  Every text that \<^verbatim>\<open>json.load\<close> accepts holds a value, so a character
  that is no white space, and is closed: read from left to right, with the brackets and
  braces inside strings set aside, as many are closed as were opened, and the text does
  not end inside a string.  The scan keeps the nesting depth and whether it stands
  between tokens, inside a string, or behind a backslash inside a string.
\<close>

datatype scan_mode = Between | InString | AfterBackslash

fun scan_step :: "int \<times> scan_mode \<Rightarrow> char \<Rightarrow> int \<times> scan_mode" where
  "scan_step (d, Between) c =
     (if c = CHR 0x22 then (d, InString)
      else if c = CHR ''{'' \<or> c = CHR ''['' then (d + 1, Between)
      else if c = CHR ''}'' \<or> c = CHR '']'' then (d - 1, Between)
      else (d, Between))"
| "scan_step (d, InString) c =
     (if c = CHR 0x5C then (d, AfterBackslash)
      else if c = CHR 0x22 then (d, Between)
      else (d, InString))"
| "scan_step (d, AfterBackslash) c = (d, InString)"

definition scan :: "string \<Rightarrow> int \<times> scan_mode" where
  "scan t = foldl scan_step (0, Between) t"

definition json_whitespace :: "char \<Rightarrow> bool" where
  "json_whitespace c = (c = CHR '' '' \<or> c = CHR 0x0A \<or> c = CHR 0x0D \<or> c = CHR 0x09)"

definition json_closed :: "string \<Rightarrow> bool" where
  "json_closed t = ((\<exists>c \<in> set t. \<not> json_whitespace c) \<and> scan t = (0, Between))"

text \<open>
  The scan of \<open>t\<close> from the state \<open>st\<close> is at depth 1 or deeper at the start and after
  every character; and it does so and ends in the state \<open>st'\<close>.
\<close>

fun stays_open :: "int \<times> scan_mode \<Rightarrow> string \<Rightarrow> bool" where
  "stays_open st [] = (1 \<le> fst st)"
| "stays_open st (c # cs) = (1 \<le> fst st \<and> stays_open (scan_step st c) cs)"

definition passes :: "int \<times> scan_mode \<Rightarrow> string \<Rightarrow> int \<times> scan_mode \<Rightarrow> bool" where
  "passes st t st' = (stays_open st t \<and> foldl scan_step st t = st')"

definition plain :: "char \<Rightarrow> bool" where
  "plain c = (c \<noteq> CHR 0x22 \<and> c \<noteq> CHR ''{'' \<and> c \<noteq> CHR ''['' \<and> c \<noteq> CHR ''}'' \<and> c \<noteq> CHR '']'')"

section \<open>Notions used to state the properties\<close>

text \<open>A JSON document has the member \<open>k\<close>: it is an object and \<open>k\<close> is one of its keys.\<close>

definition has_member :: "json \<Rightarrow> string \<Rightarrow> bool" where
  "has_member v k = (case v of JObj kvs \<Rightarrow> k \<in> set (map fst kvs) | _ \<Rightarrow> False)"

text \<open>A run in which the operating system refuses nothing.\<close>

definition no_faults :: faults where
  "no_faults = \<lparr>target_mkdir_fails = False, mkdir_fails = (\<lambda>i. False),
                 copy_outcome = (\<lambda>i img. CopyDone), save_fault = NoFault\<rparr>"

text \<open>
  A small concrete run: the catalog A, B, C with A already processed, one source folder
  with three images beside a plain file, an empty target directory, batches of two
  locations with two images each.
\<close>

definition scenario_world :: world where
  "scenario_world =
     \<lparr>catalog_file = Some [''A'', ''B'', ''C''],
      state_file = Content (JObj [(''processed_locations'', JArr [JStr ''A''])]),
      source_listing = Some [(''S1'', True), (''notes.txt'', False)],
      image_files = (\<lambda>folder. if folder = ''S1'' then Some [''x.jpg'', ''y.png'', ''z.gif'']
                               else None),
      target = Some Map.empty\<rparr>"

definition scenario_config :: config where
  "scenario_config = \<lparr>batch_size = 2, images_per_folder = 2\<rparr>"

text \<open>The same with batches of one location.\<close>

definition single_config :: config where
  "single_config = \<lparr>batch_size = 1, images_per_folder = 2\<rparr>"

text \<open>The same world with nothing but a plain file in the source directory.\<close>

definition no_folders_world :: world where
  "no_folders_world = scenario_world\<lparr>source_listing := Some [(''notes.txt'', False)]\<rparr>"

text \<open>The same world with a second source folder that holds one image.\<close>

definition two_folders_world :: world where
  "two_folders_world =
     scenario_world\<lparr>source_listing := Some [(''S1'', True), (''S2'', True)],
       image_files := (\<lambda>folder. if folder = ''S1'' then Some [''x.jpg'', ''y.png'', ''z.gif'']
                                else if folder = ''S2'' then Some [''p.jpg''] else None)\<rparr>"

text \<open>The same world once A, B and C are all recorded as processed.\<close>

definition finished_world :: world where
  "finished_world = scenario_world\<lparr>state_file :=
     Content (JObj [(''processed_locations'', JArr [JStr ''A'', JStr ''B'', JStr ''C''])])\<rparr>"

text \<open>A loop state in which the folder D is already there, with a file of its own.\<close>

definition existing_state :: run_state where
  "existing_state =
     \<lparr>tgt = Map.empty(''D'' \<mapsto> Map.empty(''old.jpg'' \<mapsto> (''S9'', True))),
      processed = JArr [], console = []\<rparr>"

text \<open>A loop state with an empty target directory and A processed.\<close>

definition fresh_state :: run_state where
  "fresh_state = \<lparr>tgt = Map.empty, processed = JArr [JStr ''A''], console = []\<rparr>"

text \<open>The operating system refuses to create the folder of the first batch entry.\<close>

definition first_mkdir_fails :: faults where
  "first_mkdir_fails = no_faults\<lparr>mkdir_fails := (\<lambda>i. i = 0)\<rparr>"

text \<open>The operating system lets the state file be opened and the write fail.\<close>

definition write_fails :: faults where
  "write_fails = no_faults\<lparr>save_fault := WriteFails\<rparr>"

text \<open>The files and folders a run leaves, and what it printed.\<close>

definition world_after :: "outcome \<times> world \<times> event list \<Rightarrow> world" where
  "world_after r = fst (snd r)"

definition printed :: "outcome \<times> world \<times> event list \<Rightarrow> event list" where
  "printed r = snd (snd r)"

text \<open>
  The two invariants of the processed list against a catalog: no location twice, and
  only locations of the catalog.
\<close>

fun processed_ok :: "string list \<Rightarrow> json \<Rightarrow> bool" where
  "processed_ok locations (JArr xs) = (distinct xs \<and> set xs \<subseteq> JStr ` set locations)"
| "processed_ok locations v = False"

text \<open>A JSON document is an object.\<close>

fun is_object :: "json \<Rightarrow> bool" where
  "is_object (JObj kvs) = True"
| "is_object v = False"

text \<open>
  The source folders a console names in its lines ``Selecting from original folder'',
  in the order printed: one for every location that got a source folder.
\<close>

fun selected :: "event list \<Rightarrow> string list" where
  "selected [] = []"
| "selected (SelectingFrom folder # es) = folder # selected es"
| "selected (e # es) = selected es"

text \<open>
  A first run over A, B and C in one batch of three, with two source folders, in which
  the folders A and C are already in the target directory.
\<close>

definition three_config :: config where
  "three_config = \<lparr>batch_size = 3, images_per_folder = 2\<rparr>"

definition skipping_world :: world where
  "skipping_world =
     two_folders_world\<lparr>state_file := Missing,
       target := Some (Map.empty(''A'' \<mapsto> Map.empty, ''C'' \<mapsto> Map.empty))\<rparr>"

text \<open>The same first run into an empty target directory.\<close>

definition first_run_world :: world where
  "first_run_world = two_folders_world\<lparr>state_file := Missing\<rparr>"

section \<open>Loading the state\<close>

lemma dict_get_absent: "k \<notin> set (map fst kvs) \<Longrightarrow> dict_get kvs k = None"
  by (simp add: dict_get_def map_of_eq_None_iff)

text \<open>
  C10, as claimed: every state file that holds valid JSON without the member
  \<open>processed_locations\<close> makes \<open>load_state\<close> return the empty list.  This fails for a
  document that is valid JSON but no object, such as the empty array: it has no members
  at all, \<^verbatim>\<open>state.get\<close> raises AttributeError, and the handler leaves with
  \<^verbatim>\<open>sys.exit(1)\<close>.
\<close>

theorem load_state_non_object_exits:
  "\<not> has_member (JArr []) ''processed_locations'' \<and>
   load_state (scenario_world\<lparr>state_file := Content (JArr [])\<rparr>) = Inl (SysExit 1)"
  by (simp add: has_member_def load_state_def)

text \<open>
  C10, amended: every state file that holds a JSON object without the member
  \<open>processed_locations\<close> makes \<open>load_state\<close> return the empty list, as on a first run;
  every state file that holds valid JSON that is not an object (an array, a string, a
  number, a truth value, null) makes \<open>load_state\<close> leave with \<^verbatim>\<open>sys.exit(1)\<close>.
\<close>

theorem load_state_without_field_by_document_kind:
  "state_file w = Content v \<Longrightarrow> \<not> has_member v ''processed_locations'' \<Longrightarrow>
   load_state w = (if is_object v then Inr (JArr []) else Inl (SysExit 1))"
  by (cases v) (simp_all add: load_state_def has_member_def dict_get_absent)

theorem load_state_without_field_by_document_kind_witness:
  "state_file (scenario_world\<lparr>state_file := Content (JObj [(''version'', JNum 2)])\<rparr>)
     = Content (JObj [(''version'', JNum 2)]) \<and>
   \<not> has_member (JObj [(''version'', JNum 2)]) ''processed_locations'' \<and>
   load_state (scenario_world\<lparr>state_file := Content (JObj [(''version'', JNum 2)])\<rparr>)
     = Inr (JArr []) \<and>
   state_file (scenario_world\<lparr>state_file := Content (JStr ''processed_locations'')\<rparr>)
     = Content (JStr ''processed_locations'') \<and>
   \<not> has_member (JStr ''processed_locations'') ''processed_locations'' \<and>
   load_state (scenario_world\<lparr>state_file := Content (JStr ''processed_locations'')\<rparr>)
     = Inl (SysExit 1)"
proof -
  have s1: "state_file (scenario_world\<lparr>state_file := Content (JObj [(''version'', JNum 2)])\<rparr>)
              = Content (JObj [(''version'', JNum 2)])"
    and m1: "\<not> has_member (JObj [(''version'', JNum 2)]) ''processed_locations''"
    by (simp_all add: has_member_def)
  have s2: "state_file (scenario_world\<lparr>state_file := Content (JStr ''processed_locations'')\<rparr>)
              = Content (JStr ''processed_locations'')"
    and m2: "\<not> has_member (JStr ''processed_locations'') ''processed_locations''"
    by (simp_all add: has_member_def)
  from load_state_without_field_by_document_kind [OF s1 m1]
  have l1: "load_state (scenario_world\<lparr>state_file := Content (JObj [(''version'', JNum 2)])\<rparr>)
              = Inr (JArr [])"
    by simp
  from load_state_without_field_by_document_kind [OF s2 m2]
  have l2: "load_state (scenario_world\<lparr>state_file := Content (JStr ''processed_locations'')\<rparr>)
              = Inl (SysExit 1)"
    by simp
  from s1 m1 l1 s2 m2 l2 show ?thesis
    by blast
qed

section \<open>The batch planner\<close>

text \<open>
  C1: for every catalog and every processed list, the unprocessed list is exactly the
  catalog entries that are not in the processed list, in catalog order (it is the catalog
  filtered, hence a subsequence of it with exactly those elements), and for a batch size
  that is a count (not negative) the current batch is the first \<open>batch_size\<close> entries of
  the unprocessed list.
\<close>

theorem batch_plan_filters_catalog_and_takes_prefix:
  "unprocessed_locations locations (JArr ps) = filter (\<lambda>loc. JStr loc \<notin> set ps) locations \<and>
   subseq (unprocessed_locations locations (JArr ps)) locations \<and>
   set (unprocessed_locations locations (JArr ps)) = {loc \<in> set locations. JStr loc \<notin> set ps} \<and>
   (0 \<le> batch_size cfg \<longrightarrow>
      current_batch cfg (unprocessed_locations locations (JArr ps))
        = take (nat (batch_size cfg)) (unprocessed_locations locations (JArr ps)))"
  by (simp add: unprocessed_locations_def current_batch_def py_slice_to_def)

theorem batch_plan_filters_catalog_and_takes_prefix_witness:
  "0 \<le> batch_size scenario_config \<and>
   unprocessed_locations [''A'', ''B'', ''C'', ''D''] (JArr [JStr ''A'']) = [''B'', ''C'', ''D''] \<and>
   current_batch scenario_config (unprocessed_locations [''A'', ''B'', ''C'', ''D''] (JArr [JStr ''A'']))
     = [''B'', ''C'']"
proof -
  have u: "unprocessed_locations [''A'', ''B'', ''C'', ''D''] (JArr [JStr ''A'']) = [''B'', ''C'', ''D'']"
    by (simp add: unprocessed_locations_def)
  have b: "0 \<le> batch_size scenario_config"
    by (simp add: scenario_config_def)
  from batch_plan_filters_catalog_and_takes_prefix
         [of "[''A'', ''B'', ''C'', ''D'']" "[JStr ''A'']" scenario_config] b
  have "current_batch scenario_config (unprocessed_locations [''A'', ''B'', ''C'', ''D''] (JArr [JStr ''A'']))
          = take (nat (batch_size scenario_config))
              (unprocessed_locations [''A'', ''B'', ''C'', ''D''] (JArr [JStr ''A'']))"
    by blast
  then show ?thesis
    using u b by (simp add: scenario_config_def)
qed

section \<open>Runs that stop before the loop\<close>

lemma main_all_processed:
  assumes "catalog_file w = Some locations" "load_state w = Inr p" "py_len p = Inr n"
    and "\<forall>loc \<in> set locations. py_in loc p"
  shows "main cfg flt w =
           (AllProcessed, w,
            [TotalLocations (length locations), AlreadyProcessed n, AllLocationsProcessed])"
  using assms
  by (simp add: main_def load_locations_def unprocessed_locations_def Let_def)

lemmas run_defs = main_def load_locations_def load_state_def dict_get_def
  unprocessed_locations_def current_batch_def py_slice_to_def get_original_folders_def
  process_location_def sanitize_folder_name_def invalid_chars_def str_replace_def
  path_exists_def say_def mark_processed_def original_folder_for_def get_image_files_def
  select_images_def put_file_def save_state_def Let_def world_after_def printed_def

lemmas example_defs = scenario_world_def scenario_config_def single_config_def no_faults_def
  no_folders_world_def two_folders_world_def finished_world_def existing_state_def
  fresh_state_def first_mkdir_fails_def write_fails_def three_config_def skipping_world_def
  first_run_world_def

text \<open>
  C6: for every run whose loaded processed list already contains every catalog location,
  the run takes the AllProcessed return, which is no error (exit status zero), and leaves
  every file and folder as it was; it prints the two counts and the closing message,
  nothing about a folder or a copy.
\<close>

theorem all_processed_run_ends_cleanly_without_mutation:
  "catalog_file w = Some locations \<Longrightarrow> load_state w = Inr (JArr ps) \<Longrightarrow>
   \<forall>loc \<in> set locations. JStr loc \<in> set ps \<Longrightarrow>
   main cfg flt w =
     (AllProcessed, w,
      [TotalLocations (length locations), AlreadyProcessed (length ps), AllLocationsProcessed]) \<and>
   exit_status AllProcessed = 0"
  using main_all_processed [of w locations "JArr ps" "length ps" cfg flt] by simp

theorem all_processed_run_ends_cleanly_without_mutation_witness:
  "catalog_file finished_world = Some [''A'', ''B'', ''C''] \<and>
   load_state finished_world = Inr (JArr [JStr ''A'', JStr ''B'', JStr ''C'']) \<and>
   main scenario_config no_faults finished_world =
     (AllProcessed, finished_world,
      [TotalLocations 3, AlreadyProcessed 3, AllLocationsProcessed])"
proof -
  have cat: "catalog_file finished_world = Some [''A'', ''B'', ''C'']"
    by (simp add: example_defs)
  have ld: "load_state finished_world = Inr (JArr [JStr ''A'', JStr ''B'', JStr ''C''])"
    by (simp add: example_defs load_state_def dict_get_def)
  have all: "\<forall>loc \<in> set [''A'', ''B'', ''C'']. JStr loc \<in> set [JStr ''A'', JStr ''B'', JStr ''C'']"
    by simp
  from all_processed_run_ends_cleanly_without_mutation
         [OF cat ld all, of scenario_config no_faults]
  show ?thesis using cat ld by simp
qed

text \<open>
  C4, as claimed: a run whose scan of the source directory yields no folder halts with a
  fatal error and a non-zero exit status.  The program instead prints that no original
  folders were found and returns: here the source directory holds one plain file, the
  run ends through that \<^verbatim>\<open>return\<close>, and the exit status is zero.
\<close>

theorem no_source_folders_run_exits_with_status_zero:
  "get_original_folders no_folders_world = Some [] \<and>
   fst (main scenario_config no_faults no_folders_world) = NoOriginalFolders \<and>
   exit_status (fst (main scenario_config no_faults no_folders_world)) = 0"
  by (simp add: run_defs example_defs)

text \<open>
  C4, amended: every run that has a batch to process and whose scan of the source
  directory yields no folder prints that no original folders were found and returns
  normally (exit status zero); it leaves every file and folder as it was: the target
  directory is not created and the state file is not written.
\<close>

theorem no_source_folders_run_returns_normally:
  "catalog_file w = Some locations \<Longrightarrow> load_state w = Inr p \<Longrightarrow> py_len p = Inr n \<Longrightarrow>
   current_batch cfg (unprocessed_locations locations p) \<noteq> [] \<Longrightarrow>
   get_original_folders w = Some [] \<Longrightarrow>
   main cfg flt w =
     (NoOriginalFolders, w,
      [TotalLocations (length locations), AlreadyProcessed n,
       ProcessingRange (length (current_batch cfg (unprocessed_locations locations p)))
         (py_index locations (hd (current_batch cfg (unprocessed_locations locations p))))
         (py_index locations (last (current_batch cfg (unprocessed_locations locations p)))),
       TotalOriginalFolders 0, NoOriginalFoldersFound]) \<and>
   exit_status NoOriginalFolders = 0"
proof -
  assume a: "catalog_file w = Some locations" "load_state w = Inr p" "py_len p = Inr n"
    "current_batch cfg (unprocessed_locations locations p) \<noteq> []"
    "get_original_folders w = Some []"
  from a(4) have "unprocessed_locations locations p \<noteq> []"
    by (auto simp: current_batch_def py_slice_to_def)
  with a show ?thesis
    by (simp add: main_def load_locations_def Let_def)
qed

theorem no_source_folders_run_returns_normally_witness:
  "catalog_file no_folders_world = Some [''A'', ''B'', ''C''] \<and>
   load_state no_folders_world = Inr (JArr [JStr ''A'']) \<and>
   current_batch scenario_config (unprocessed_locations [''A'', ''B'', ''C''] (JArr [JStr ''A''])) \<noteq> [] \<and>
   get_original_folders no_folders_world = Some [] \<and>
   main scenario_config no_faults no_folders_world =
     (NoOriginalFolders, no_folders_world,
      [TotalLocations 3, AlreadyProcessed 1, ProcessingRange 2 1 2,
       TotalOriginalFolders 0, NoOriginalFoldersFound])"
proof -
  have cat: "catalog_file no_folders_world = Some [''A'', ''B'', ''C'']"
    by (simp add: example_defs)
  have ld: "load_state no_folders_world = Inr (JArr [JStr ''A''])"
    by (simp add: example_defs load_state_def dict_get_def)
  have len: "py_len (JArr [JStr ''A'']) = Inr 1"
    by simp
  have batch: "current_batch scenario_config
                 (unprocessed_locations [''A'', ''B'', ''C''] (JArr [JStr ''A''])) = [''B'', ''C'']"
    by (simp add: example_defs current_batch_def unprocessed_locations_def py_slice_to_def)
  then have ne: "current_batch scenario_config
                   (unprocessed_locations [''A'', ''B'', ''C''] (JArr [JStr ''A''])) \<noteq> []"
    by simp
  have pool: "get_original_folders no_folders_world = Some []"
    by (simp add: example_defs get_original_folders_def)
  from no_source_folders_run_returns_normally [OF cat ld len ne pool, of no_faults]
  show ?thesis using cat ld pool batch by simp
qed

section \<open>One entry of the batch\<close>

text \<open>
  C7: for every batch entry whose destination already exists, the loop body leaves the
  target directory as it is (so the contents of that folder too), prints only that the
  folder exists (no folder created, no copy tried), raises nothing, appends the location
  to the processed list, and the loop goes on with the next entry.
\<close>

theorem existing_folder_is_skipped_and_marked:
  "path_exists (tgt st) (sanitize_folder_name location) \<Longrightarrow> processed st = JArr ps \<Longrightarrow>
   process_location cfg flt w original_folders i location st =
     (None, st\<lparr>processed := JArr (ps @ [JStr location]),
               console := console st @ [FolderExists (sanitize_folder_name location)]\<rparr>) \<and>
   process_batch cfg flt w original_folders i (location # rest) st =
     process_batch cfg flt w original_folders (Suc i) rest
       (st\<lparr>processed := JArr (ps @ [JStr location]),
           console := console st @ [FolderExists (sanitize_folder_name location)]\<rparr>)"
proof -
  assume a: "path_exists (tgt st) (sanitize_folder_name location)" "processed st = JArr ps"
  have step: "process_location cfg flt w original_folders i location st =
     (None, st\<lparr>processed := JArr (ps @ [JStr location]),
               console := console st @ [FolderExists (sanitize_folder_name location)]\<rparr>)"
    using a by (simp add: process_location_def mark_processed_def say_def)
  show ?thesis
    by (simp add: step)
qed

theorem existing_folder_is_skipped_and_marked_witness:
  "path_exists (tgt existing_state) (sanitize_folder_name ''D'') \<and>
   processed existing_state = JArr [] \<and>
   process_location scenario_config no_faults scenario_world [''S1''] 0 ''D'' existing_state =
     (None, \<lparr>tgt = Map.empty(''D'' \<mapsto> Map.empty(''old.jpg'' \<mapsto> (''S9'', True))),
             processed = JArr [JStr ''D''], console = [FolderExists ''D'']\<rparr>)"
proof -
  have name: "sanitize_folder_name ''D'' = ''D''"
    by (simp add: sanitize_folder_name_def invalid_chars_def str_replace_def)
  have ex: "path_exists (tgt existing_state) (sanitize_folder_name ''D'')"
    by (simp add: name existing_state_def path_exists_def)
  have pr: "processed existing_state = JArr []"
    by (simp add: existing_state_def)
  from existing_folder_is_skipped_and_marked
         [OF ex pr, of scenario_config no_faults scenario_world "[''S1'']" 0 "[]"]
  show ?thesis using ex pr by (simp add: name existing_state_def)
qed

text \<open>
  C8: for every batch entry whose destination does not exist yet and whose folder cannot
  be created, the loop body prints the error, leaves the processed list as it is (the
  location is not added, so the filter of a later run selects it again) and the target
  directory too, raises nothing, and the loop goes on with the remaining entries.
\<close>

theorem failed_folder_creation_is_skipped_unmarked:
  "\<not> path_exists (tgt st) (sanitize_folder_name location) \<Longrightarrow> mkdir_fails flt i \<Longrightarrow>
   process_location cfg flt w original_folders i location st =
     (None, st\<lparr>console := console st @ [ErrorCreatingFolder (sanitize_folder_name location)]\<rparr>) \<and>
   processed (snd (process_location cfg flt w original_folders i location st)) = processed st \<and>
   process_batch cfg flt w original_folders i (location # rest) st =
     process_batch cfg flt w original_folders (Suc i) rest
       (st\<lparr>console := console st @ [ErrorCreatingFolder (sanitize_folder_name location)]\<rparr>)"
  by (simp add: process_location_def say_def)

theorem failed_folder_creation_is_skipped_unmarked_witness:
  "\<not> path_exists (tgt fresh_state) (sanitize_folder_name ''B'') \<and>
   mkdir_fails first_mkdir_fails 0 \<and>
   process_location scenario_config first_mkdir_fails scenario_world [''S1''] 0 ''B'' fresh_state =
     (None, \<lparr>tgt = Map.empty, processed = JArr [JStr ''A''],
             console = [ErrorCreatingFolder ''B'']\<rparr>) \<and>
   processed (snd (process_batch scenario_config first_mkdir_fails scenario_world [''S1''] 0
                [''B'', ''C''] fresh_state)) = JArr [JStr ''A'', JStr ''C'']"
proof -
  have name: "sanitize_folder_name ''B'' = ''B''"
    by (simp add: sanitize_folder_name_def invalid_chars_def str_replace_def)
  have nex: "\<not> path_exists (tgt fresh_state) (sanitize_folder_name ''B'')"
    by (simp add: name fresh_state_def path_exists_def)
  have fails: "mkdir_fails first_mkdir_fails 0"
    by (simp add: first_mkdir_fails_def)
  note step = failed_folder_creation_is_skipped_unmarked
         [OF nex fails, of scenario_config scenario_world "[''S1'']" "[''C'']"]
  have rest: "processed (snd (process_batch scenario_config first_mkdir_fails scenario_world
                [''S1''] (Suc 0) [''C'']
                (fresh_state\<lparr>console := console fresh_state @ [ErrorCreatingFolder ''B'']\<rparr>)))
              = JArr [JStr ''A'', JStr ''C'']"
    by (simp add: run_defs example_defs)
  from step rest show ?thesis
    using nex fails by (simp add: name fresh_state_def)
qed

section \<open>The whole batch and the processed list\<close>

lemma copy_images_processed [simp]:
  "processed (copy_images flt i folder name imgs st) = processed st"
  by (induction imgs arbitrary: st) (simp_all add: say_def split: copy_result.splits)

lemma process_location_marks:
  assumes "processed st = JArr ps"
  shows "\<exists>e st'. process_location cfg flt w ofs i location st = (e, st') \<and>
           (processed st' = JArr ps \<or> (e = None \<and> processed st' = JArr (ps @ [JStr location]))) \<and>
           (e = None \<and> processed st' = JArr ps \<longrightarrow> mkdir_fails flt i)"
  using assms
  by (auto simp: process_location_def mark_processed_def say_def Let_def split: sum.splits)

text \<open>
  On a processed list the loop appends some of the batch entries, in batch order, each at
  most once; all of them when it ends without an exception and no folder creation is
  refused.
\<close>

lemma process_batch_marks:
  "processed st = JArr ps \<Longrightarrow>
   \<exists>e st' marked. process_batch cfg flt w ofs i batch st = (e, st') \<and>
      processed st' = JArr (ps @ map JStr marked) \<and> subseq marked batch \<and>
      (e = None \<and> (\<forall>k. \<not> mkdir_fails flt k) \<longrightarrow> marked = batch)"
proof (induction batch arbitrary: st ps i)
  case Nil
  then show ?case by simp
next
  case (Cons location rest)
  from process_location_marks [OF Cons.prems, of cfg flt w ofs i location]
  obtain e1 st1 where s1: "process_location cfg flt w ofs i location st = (e1, st1)"
    and p1: "processed st1 = JArr ps \<or> (e1 = None \<and> processed st1 = JArr (ps @ [JStr location]))"
    and f1: "e1 = None \<and> processed st1 = JArr ps \<longrightarrow> mkdir_fails flt i"
    by blast
  show ?case
  proof (cases e1)
    case (Some x)
    with p1 have "processed st1 = JArr (ps @ map JStr [])" by simp
    moreover have "process_batch cfg flt w ofs i (location # rest) st = (Some x, st1)"
      using s1 Some by simp
    ultimately show ?thesis
      by (intro exI [of _ "Some x"] exI [of _ st1] exI [of _ "[]"]) simp
  next
    case None
    from p1 show ?thesis
    proof
      assume a: "processed st1 = JArr ps"
      from Cons.IH [OF a, of "Suc i"] obtain e' st' marked where
        r: "process_batch cfg flt w ofs (Suc i) rest st1 = (e', st')"
           "processed st' = JArr (ps @ map JStr marked)" "subseq marked rest"
        by blast
      have "subseq marked (location # rest)" using r(3) by (rule list_emb_Cons)
      moreover have "\<not> (\<forall>k. \<not> mkdir_fails flt k)" using a f1 None by blast
      ultimately show ?thesis using s1 None r by auto
    next
      assume "e1 = None \<and> processed st1 = JArr (ps @ [JStr location])"
      then have a: "processed st1 = JArr (ps @ [JStr location])" by simp
      from Cons.IH [OF a, of "Suc i"] obtain e' st' marked where
        r: "process_batch cfg flt w ofs (Suc i) rest st1 = (e', st')"
           "processed st' = JArr ((ps @ [JStr location]) @ map JStr marked)" "subseq marked rest"
           "e' = None \<and> (\<forall>k. \<not> mkdir_fails flt k) \<longrightarrow> marked = rest"
        by blast
      have "subseq (location # marked) (location # rest)" using r(3) by simp
      moreover have "processed st' = JArr (ps @ map JStr (location # marked))" using r(2) by simp
      ultimately show ?thesis using s1 None r(1) r(4)
        by (intro exI [of _ e'] exI [of _ st'] exI [of _ "location # marked"]) simp
    qed
  qed
qed

text \<open>What a run can leave behind, for a state file that loads as a list.\<close>

lemma main_world_cases:
  assumes run: "main cfg flt w = (out, w', out_log)"
    and cat: "catalog_file w = Some locations"
    and ld: "load_state w = Inr (JArr xs)"
  shows "w' = w \<or>
         (\<exists>marked t. subseq marked (current_batch cfg (unprocessed_locations locations (JArr xs))) \<and>
            (w' = w\<lparr>target := Some t\<rparr> \<or>
             w' = w\<lparr>target := Some t, state_file := Garbled\<rparr> \<or>
             w' = w\<lparr>target := Some t,
                    state_file := Content (JObj [(''processed_locations'', JArr (xs @ map JStr marked))])\<rparr>))"
proof -
  let ?batch = "current_batch cfg (unprocessed_locations locations (JArr xs))"
  show ?thesis
  proof (cases "unprocessed_locations locations (JArr xs) = [] \<or> ?batch = [] \<or>
                get_original_folders w = None \<or> get_original_folders w = Some [] \<or>
                (target_mkdir_fails flt \<and> target w = None)")
    case True
    with run cat ld have "w' = w"
      by (auto simp: main_def load_locations_def Let_def split: option.splits if_splits)
    then show ?thesis by simp
  next
    case False
    then obtain ofs where ofs: "get_original_folders w = Some ofs" "ofs \<noteq> []"
      by auto
    let ?st0 = "\<lparr>tgt = (case target w of None \<Rightarrow> Map.empty | Some t \<Rightarrow> t), processed = JArr xs,
                  console = [TotalLocations (length locations), AlreadyProcessed (length xs),
                    ProcessingRange (length ?batch) (py_index locations (hd ?batch))
                      (py_index locations (last ?batch)),
                    TotalOriginalFolders (length ofs)]\<rparr>"
    have "processed ?st0 = JArr xs" by simp
    from process_batch_marks [OF this, of cfg flt w ofs 0 ?batch]
    obtain e st marked where l: "process_batch cfg flt w ofs 0 ?batch ?st0 = (e, st)"
      "processed st = JArr (xs @ map JStr marked)" "subseq marked ?batch"
      by blast
    from run cat ld False ofs l(1) l(2)
    have "w' = w\<lparr>target := Some (tgt st)\<rparr> \<or>
          w' = w\<lparr>target := Some (tgt st), state_file := Garbled\<rparr> \<or>
          w' = w\<lparr>target := Some (tgt st),
                    state_file := Content (JObj [(''processed_locations'', JArr (xs @ map JStr marked))])\<rparr>"
      by (cases e)
         (auto simp: main_def load_locations_def Let_def save_state_def split: save_fault.splits)
    with l(3) show ?thesis by blast
  qed
qed

lemma subseq_set_subset: "subseq xs ys \<Longrightarrow> set xs \<subseteq> set ys"
  by (auto elim: list_emb_set)

lemma subseq_keeps_distinct: "subseq xs ys \<Longrightarrow> distinct ys \<Longrightarrow> distinct xs"
  by (auto simp: subseq_conv_nths)

lemma current_batch_subset: "set (current_batch cfg xs) \<subseteq> set xs"
  by (auto simp: current_batch_def py_slice_to_def dest: in_set_takeD)

lemma current_batch_distinct: "distinct xs \<Longrightarrow> distinct (current_batch cfg xs)"
  by (simp add: current_batch_def py_slice_to_def)

lemma marked_keeps_processed_ok:
  assumes d: "distinct locations" and ok: "processed_ok locations (JArr xs)"
    and sub: "subseq marked (current_batch cfg (unprocessed_locations locations (JArr xs)))"
  shows "processed_ok locations (JArr (xs @ map JStr marked))"
proof -
  let ?u = "unprocessed_locations locations (JArr xs)"
  have du: "distinct ?u" using d by (simp add: unprocessed_locations_def)
  have dm: "distinct marked"
    using sub current_batch_distinct [OF du, of cfg] by (rule subseq_keeps_distinct)
  have "set marked \<subseteq> set (current_batch cfg ?u)"
    using sub by (rule subseq_set_subset)
  then have sm: "set marked \<subseteq> set ?u"
    using current_batch_subset [of cfg ?u] by blast
  have in_cat: "set marked \<subseteq> set locations"
    using sm by (auto simp: unprocessed_locations_def)
  have fresh: "\<forall>loc \<in> set marked. JStr loc \<notin> set xs"
    using sm by (auto simp: unprocessed_locations_def)
  have "distinct (map JStr marked)"
    using dm by (simp add: distinct_map inj_on_def)
  moreover have "set xs \<inter> set (map JStr marked) = {}"
    using fresh by auto
  ultimately have "distinct (xs @ map JStr marked)"
    using ok by simp
  moreover have "set (xs @ map JStr marked) \<subseteq> JStr ` set locations"
    using ok in_cat by auto
  ultimately show ?thesis by simp
qed

text \<open>
  C9: with location identifiers unique within the catalog, a run keeps the two invariants
  of the persisted processed list: whenever the state file loaded as a list without
  duplicates that holds only catalog locations, then, however the run ends, a state file
  that loads afterwards loads as such a list again, and the catalog is the same.  Within
  the run each location is appended at most once, so no append repeats an entry.
\<close>

theorem run_preserves_processed_invariants:
  assumes cat: "catalog_file w = Some locations" and d: "distinct locations"
    and ld: "load_state w = Inr p" and ok: "processed_ok locations p"
    and run: "main cfg flt w = (out, w', out_log)"
  shows "catalog_file w' = Some locations \<and>
         (\<forall>p'. load_state w' = Inr p' \<longrightarrow> processed_ok locations p')"
proof -
  from ok obtain xs where p: "p = JArr xs" by (cases p) auto
  from main_world_cases [OF run cat ld [unfolded p]]
  consider "w' = w"
    | marked t where "subseq marked (current_batch cfg (unprocessed_locations locations (JArr xs)))"
        "w' = w\<lparr>target := Some t\<rparr> \<or> w' = w\<lparr>target := Some t, state_file := Garbled\<rparr> \<or>
         w' = w\<lparr>target := Some t,
                state_file := Content (JObj [(''processed_locations'', JArr (xs @ map JStr marked))])\<rparr>"
    by blast
  then show ?thesis
  proof cases
    case 1
    then show ?thesis using cat ld ok by simp
  next
    case (2 marked t)
    have new_ok: "processed_ok locations (JArr (xs @ map JStr marked))"
      using d ok [unfolded p] 2(1) by (rule marked_keeps_processed_ok)
    from 2(2) show ?thesis
    proof (elim disjE)
      assume "w' = w\<lparr>target := Some t\<rparr>"
      then show ?thesis using cat ld ok by (simp add: load_state_def)
    next
      assume "w' = w\<lparr>target := Some t, state_file := Garbled\<rparr>"
      then show ?thesis using cat by (simp add: load_state_def)
    next
      assume "w' = w\<lparr>target := Some t,
                state_file := Content (JObj [(''processed_locations'', JArr (xs @ map JStr marked))])\<rparr>"
      then show ?thesis using cat new_ok by (simp add: load_state_def dict_get_def)
    qed
  qed
qed

theorem run_preserves_processed_invariants_witness:
  "catalog_file scenario_world = Some [''A'', ''B'', ''C''] \<and>
   distinct [''A'', ''B'', ''C''] \<and>
   load_state scenario_world = Inr (JArr [JStr ''A'']) \<and>
   processed_ok [''A'', ''B'', ''C''] (JArr [JStr ''A'']) \<and>
   load_state (world_after (main scenario_config no_faults scenario_world))
     = Inr (JArr [JStr ''A'', JStr ''B'', JStr ''C'']) \<and>
   processed_ok [''A'', ''B'', ''C''] (JArr [JStr ''A'', JStr ''B'', JStr ''C''])"
proof -
  have cat: "catalog_file scenario_world = Some [''A'', ''B'', ''C'']"
    by (simp add: example_defs)
  have d: "distinct [''A'', ''B'', ''C'']"
    by simp
  have ld: "load_state scenario_world = Inr (JArr [JStr ''A''])"
    by (simp add: example_defs load_state_def dict_get_def)
  have ok: "processed_ok [''A'', ''B'', ''C''] (JArr [JStr ''A''])"
    by simp
  have run: "main scenario_config no_faults scenario_world =
               (fst (main scenario_config no_faults scenario_world),
                world_after (main scenario_config no_faults scenario_world),
                printed (main scenario_config no_faults scenario_world))"
    by (simp add: world_after_def printed_def)
  have after: "load_state (world_after (main scenario_config no_faults scenario_world))
                 = Inr (JArr [JStr ''A'', JStr ''B'', JStr ''C''])"
    by (simp add: run_defs example_defs)
  from run_preserves_processed_invariants [OF cat d ld ok run] after
  have "processed_ok [''A'', ''B'', ''C''] (JArr [JStr ''A'', JStr ''B'', JStr ''C''])"
    by blast
  with cat d ld ok after show ?thesis
    by blast
qed

section \<open>Two runs in sequence\<close>

text \<open>
  A run that ends with ``Batch processing complete'' has gone through the loop without
  an exception and has written the state file.
\<close>

lemma main_batch_complete_inv:
  assumes run: "fst (main cfg flt w) = BatchComplete"
    and cat: "catalog_file w = Some locations"
    and ld: "load_state w = Inr (JArr xs)"
  shows "\<exists>t marked.
           subseq marked (current_batch cfg (unprocessed_locations locations (JArr xs))) \<and>
           ((\<forall>k. \<not> mkdir_fails flt k) \<longrightarrow>
              marked = current_batch cfg (unprocessed_locations locations (JArr xs))) \<and>
           world_after (main cfg flt w) =
             w\<lparr>target := Some t,
               state_file := Content (JObj [(''processed_locations'', JArr (xs @ map JStr marked))])\<rparr>"
proof -
  let ?batch = "current_batch cfg (unprocessed_locations locations (JArr xs))"
  show ?thesis
  proof (cases "unprocessed_locations locations (JArr xs) = [] \<or> ?batch = [] \<or>
                get_original_folders w = None \<or> get_original_folders w = Some [] \<or>
                (target_mkdir_fails flt \<and> target w = None)")
    case True
    with cat ld have "fst (main cfg flt w) \<noteq> BatchComplete"
      by (auto simp: main_def load_locations_def Let_def split: option.splits if_splits)
    with run show ?thesis by simp
  next
    case False
    then obtain ofs where ofs: "get_original_folders w = Some ofs" "ofs \<noteq> []"
      by auto
    let ?st0 = "\<lparr>tgt = (case target w of None \<Rightarrow> Map.empty | Some t \<Rightarrow> t), processed = JArr xs,
                  console = [TotalLocations (length locations), AlreadyProcessed (length xs),
                    ProcessingRange (length ?batch) (py_index locations (hd ?batch))
                      (py_index locations (last ?batch)),
                    TotalOriginalFolders (length ofs)]\<rparr>"
    have "processed ?st0 = JArr xs" by simp
    from process_batch_marks [OF this, of cfg flt w ofs 0 ?batch]
    obtain e st marked where l: "process_batch cfg flt w ofs 0 ?batch ?st0 = (e, st)"
      "processed st = JArr (xs @ map JStr marked)" "subseq marked ?batch"
      "e = None \<and> (\<forall>k. \<not> mkdir_fails flt k) \<longrightarrow> marked = ?batch"
      by blast
    from run cat ld False ofs l(1)
    have ok: "e = None \<and> save_fault flt = NoFault"
      by (cases e; cases "save_fault flt")
         (auto simp: main_def load_locations_def Let_def save_state_def)
    with cat ld False ofs l(1) l(2)
    have "world_after (main cfg flt w) =
            w\<lparr>target := Some (tgt st),
              state_file := Content (JObj [(''processed_locations'', JArr (xs @ map JStr marked))])\<rparr>"
      by (auto simp: main_def load_locations_def Let_def save_state_def world_after_def)
    with l(3) l(4) ok show ?thesis by blast
  qed
qed

text \<open>
  C5, as claimed: a second run with the same inputs marks no new location and copies
  nothing.  The program works through the catalog one batch per run: with batches of one
  location, the first run on the example records B and the second run goes on to C,
  records it and copies its images.
\<close>

theorem second_run_processes_next_batch:
  "state_file (world_after (main single_config no_faults scenario_world))
     = Content (JObj [(''processed_locations'', JArr [JStr ''A'', JStr ''B''])]) \<and>
   state_file (world_after (main single_config no_faults
                 (world_after (main single_config no_faults scenario_world))))
     = Content (JObj [(''processed_locations'', JArr [JStr ''A'', JStr ''B'', JStr ''C''])]) \<and>
   Copied ''x.jpg'' ''C'' \<in> set (printed (main single_config no_faults
                 (world_after (main single_config no_faults scenario_world))))"
  by (simp add: run_defs example_defs)

text \<open>
  C5, amended: when the first run completes its batch and saves the state (it ends with
  ``Batch processing complete''), its batch covered every unprocessed location (their
  number is at most the batch size) and no folder creation was refused, the state file it
  leaves holds every catalog location, and a second run on the files and folders it
  leaves, whatever the operating system would refuse then, takes the AllProcessed return
  and leaves everything as it found it: no location marked, no folder created, no image
  copied.
\<close>

theorem second_run_after_complete_batch_changes_nothing:
  assumes cat: "catalog_file w = Some locations"
    and ld: "load_state w = Inr (JArr ps)"
    and fits: "int (length (unprocessed_locations locations (JArr ps))) \<le> batch_size cfg"
    and mk: "\<forall>k. \<not> mkdir_fails flt k"
    and run: "fst (main cfg flt w) = BatchComplete"
  shows "\<exists>ps'. load_state (world_after (main cfg flt w)) = Inr (JArr ps') \<and>
           (\<forall>loc \<in> set locations. JStr loc \<in> set ps') \<and>
           main cfg flt' (world_after (main cfg flt w)) =
             (AllProcessed, world_after (main cfg flt w),
              [TotalLocations (length locations), AlreadyProcessed (length ps'),
               AllLocationsProcessed])"
proof -
  let ?u = "unprocessed_locations locations (JArr ps)"
  have batch: "current_batch cfg ?u = ?u"
    using fits by (simp add: current_batch_def py_slice_to_def)
  from main_batch_complete_inv [OF run cat ld] mk
  obtain t where first: "world_after (main cfg flt w) =
      w\<lparr>target := Some t,
        state_file := Content (JObj [(''processed_locations'', JArr (ps @ map JStr ?u))])\<rparr>"
    by (auto simp: batch)
  let ?w1 = "w\<lparr>target := Some t,
         state_file := Content (JObj [(''processed_locations'', JArr (ps @ map JStr ?u))])\<rparr>"
  have cat1: "catalog_file ?w1 = Some locations" using cat by simp
  have ld1: "load_state ?w1 = Inr (JArr (ps @ map JStr ?u))"
    by (simp add: load_state_def dict_get_def)
  have all1: "\<forall>loc \<in> set locations. py_in loc (JArr (ps @ map JStr ?u))"
    by (auto simp: unprocessed_locations_def)
  have "main cfg flt' ?w1 =
      (AllProcessed, ?w1, [TotalLocations (length locations),
         AlreadyProcessed (length (ps @ map JStr ?u)), AllLocationsProcessed])"
    using main_all_processed [OF cat1 ld1 _ all1, of "length (ps @ map JStr ?u)" cfg flt'] by simp
  with ld1 all1 show ?thesis
    unfolding first by (intro exI [of _ "ps @ map JStr ?u"]) simp
qed

theorem second_run_after_complete_batch_changes_nothing_witness:
  "catalog_file scenario_world = Some [''A'', ''B'', ''C''] \<and>
   load_state scenario_world = Inr (JArr [JStr ''A'']) \<and>
   int (length (unprocessed_locations [''A'', ''B'', ''C''] (JArr [JStr ''A''])))
     \<le> batch_size scenario_config \<and>
   fst (main scenario_config no_faults scenario_world) = BatchComplete \<and>
   fst (main scenario_config first_mkdir_fails
          (world_after (main scenario_config no_faults scenario_world))) = AllProcessed \<and>
   world_after (main scenario_config first_mkdir_fails
          (world_after (main scenario_config no_faults scenario_world)))
     = world_after (main scenario_config no_faults scenario_world)"
proof -
  have cat: "catalog_file scenario_world = Some [''A'', ''B'', ''C'']"
    by (simp add: example_defs)
  have ld: "load_state scenario_world = Inr (JArr [JStr ''A''])"
    by (simp add: example_defs load_state_def dict_get_def)
  have fits: "int (length (unprocessed_locations [''A'', ''B'', ''C''] (JArr [JStr ''A''])))
                \<le> batch_size scenario_config"
    by (simp add: example_defs unprocessed_locations_def)
  have mk: "\<forall>k. \<not> mkdir_fails no_faults k"
    by (simp add: example_defs)
  have run: "fst (main scenario_config no_faults scenario_world) = BatchComplete"
    by (simp add: run_defs example_defs)
  from second_run_after_complete_batch_changes_nothing
         [OF cat ld fits mk run, of first_mkdir_fails]
  have "fst (main scenario_config first_mkdir_fails
          (world_after (main scenario_config no_faults scenario_world))) = AllProcessed"
    and "world_after (main scenario_config first_mkdir_fails
          (world_after (main scenario_config no_faults scenario_world)))
     = world_after (main scenario_config no_faults scenario_world)"
    by (auto simp: world_after_def)
  with cat ld fits run show ?thesis
    by blast
qed

section \<open>The cyclic choice of the source folder\<close>






lemma selected_append [simp]: "selected (xs @ ys) = selected xs @ selected ys"
  by (induction xs rule: selected.induct) simp_all
















section \<open>A save that fails\<close>

lemma passes_append:
  "passes st a st' \<Longrightarrow> passes st' b st'' \<Longrightarrow> passes st (a @ b) st''"
  unfolding passes_def
  by (induction a arbitrary: st) auto

lemma stays_open_prefix:
  "stays_open st t \<Longrightarrow> prefix u t \<Longrightarrow> 1 \<le> fst (foldl scan_step st u)"
proof (induction t arbitrary: st u)
  case Nil
  then show ?case by simp
next
  case (Cons c cs)
  show ?case
  proof (cases u)
    case Nil
    with Cons.prems show ?thesis by simp
  next
    case (Cons a v)
    with Cons.prems Cons.IH [of "scan_step st c" v] show ?thesis by auto
  qed
qed

lemma passes_plain:
  "\<forall>c \<in> set t. plain c \<Longrightarrow> 1 \<le> d \<Longrightarrow> passes (d, Between) t (d, Between)"
  unfolding passes_def
  by (induction t) (auto simp: plain_def)

lemma hex_digit_plain:
  "n < 16 \<Longrightarrow> hex_digit n \<noteq> CHR 0x22 \<and> hex_digit n \<noteq> CHR 0x5C"
proof -
  assume "n < 16"
  then have "n \<in> set [0..<16]" by simp
  then show ?thesis
    unfolding hex_digit_def by (simp add: upt_rec) (elim disjE; simp)
qed

lemma passes_escape_char:
  "1 \<le> d \<Longrightarrow> passes (d, InString) (escape_char c) (d, InString)"
proof -
  assume d: "1 \<le> d"
  have h1: "hex_digit ((of_char c :: nat) div 16) \<noteq> CHR 0x22 \<and>
            hex_digit ((of_char c :: nat) div 16) \<noteq> CHR 0x5C"
    by (rule hex_digit_plain) (simp add: less_mult_imp_div_less)
  have h2: "hex_digit ((of_char c :: nat) mod 16) \<noteq> CHR 0x22 \<and>
            hex_digit ((of_char c :: nat) mod 16) \<noteq> CHR 0x5C"
    by (rule hex_digit_plain) simp
  show ?thesis
    using d h1 h2 unfolding passes_def escape_char_def by simp
qed

lemma passes_escaped:
  "1 \<le> d \<Longrightarrow> passes (d, InString) (concat (map escape_char s)) (d, InString)"
proof (induction s)
  case Nil
  then show ?case by (simp add: passes_def)
next
  case (Cons c s)
  then show ?case
    using passes_append [OF passes_escape_char [of d c],
            of "concat (map escape_char s)" "(d, InString)"]
    by simp
qed

lemma passes_json_string:
  assumes "1 \<le> d"
  shows "passes (d, Between) (json_string s) (d, Between)"
proof -
  have a: "passes (d, Between) [CHR 0x22] (d, InString)"
    using assms by (simp add: passes_def)
  have c: "passes (d, InString) [CHR 0x22] (d, Between)"
    using assms by (simp add: passes_def)
  show ?thesis
    unfolding json_string_def
    by (rule passes_append [OF a passes_append [OF passes_escaped [OF assms] c]])
qed

lemma passes_newline_indent:
  "1 \<le> d \<Longrightarrow> passes (d, Between) (newline_indent level) (d, Between)"
  by (rule passes_plain) (auto simp: newline_indent_def plain_def)

lemma passes_items:
  assumes "1 \<le> d"
  shows "passes (d, Between)
           (concat (map (\<lambda>y. '','' @ newline_indent 2 @ json_string y) rest)) (d, Between)"
proof (induction rest)
  case Nil
  then show ?case using assms by (simp add: passes_def)
next
  case (Cons y rest)
  have comma: "passes (d, Between) '','' (d, Between)"
    using assms by (simp add: passes_def)
  have item: "passes (d, Between) ('','' @ newline_indent 2 @ json_string y) (d, Between)"
    by (rule passes_append [OF comma
          passes_append [OF passes_newline_indent [OF assms] passes_json_string [OF assms]]])
  show ?case
    using passes_append [OF item Cons.IH] by simp
qed

lemma passes_dump_list:
  "passes (1, Between) (dump_list xs) (1, Between)"
proof (cases xs)
  case Nil
  then show ?thesis by (simp add: dump_list_def passes_def)
next
  case (Cons x rest)
  have two: "(1::int) \<le> 2" by simp
  have lbr: "passes (1, Between) ''['' (2, Between)"
    by (simp add: passes_def)
  have rbr: "passes (2, Between) '']'' (1, Between)"
    by (simp add: passes_def)
  have "passes (1, Between)
          (''['' @ newline_indent 2 @ json_string x
           @ concat (map (\<lambda>y. '','' @ newline_indent 2 @ json_string y) rest)
           @ newline_indent 1 @ '']'') (1, Between)"
    by (rule passes_append [OF lbr
          passes_append [OF passes_newline_indent [OF two]
          passes_append [OF passes_json_string [OF two]
          passes_append [OF passes_items [OF two]
          passes_append [OF passes_newline_indent [OF two] rbr]]]]])
  then show ?thesis using Cons by (simp add: dump_list_def)
qed

lemma passes_dump_body: "passes (1, Between) (dump_body ps) (1, Between)"
proof -
  have one: "(1::int) \<le> 1" by simp
  have colon: "passes (1, Between) '': '' (1, Between)"
    by (simp add: passes_def)
  show ?thesis
    unfolding dump_body_def
    by (rule passes_append [OF passes_newline_indent [OF one]
          passes_append [OF passes_json_string [OF one]
          passes_append [OF colon
          passes_append [OF passes_dump_list passes_newline_indent [OF one]]]]])
qed

lemma dump_state_closed: "json_closed (dump_state ps)"
proof -
  have "foldl scan_step (1, Between) (dump_body ps) = (1, Between)"
    using passes_dump_body [of ps] by (simp add: passes_def)
  then have "scan (dump_state ps) = (0, Between)"
    by (simp add: scan_def dump_state_def)
  moreover have "\<exists>c \<in> set (dump_state ps). \<not> json_whitespace c"
    by (simp add: dump_state_def json_whitespace_def)
  ultimately show ?thesis by (simp add: json_closed_def)
qed

lemma cut_dump_state_not_closed:
  assumes "strict_prefix t (dump_state ps)"
  shows "\<not> json_closed t"
proof (cases t)
  case Nil
  then show ?thesis by (simp add: json_closed_def)
next
  case (Cons c u)
  have whole: "dump_state ps = (CHR ''{'' # dump_body ps) @ [CHR ''}'']"
    by (simp add: dump_state_def)
  have "prefix t (CHR ''{'' # dump_body ps)"
    using assms unfolding whole strict_prefix_def prefix_snoc by blast
  with Cons have c: "c = CHR ''{''" and u: "prefix u (dump_body ps)"
    by simp_all
  have "stays_open (1, Between) (dump_body ps)"
    using passes_dump_body [of ps] by (simp add: passes_def)
  from stays_open_prefix [OF this u]
  have "1 \<le> fst (foldl scan_step (1, Between) u)" .
  then have "fst (scan t) \<noteq> 0"
    by (simp add: scan_def Cons c)
  then show ?thesis by (auto simp: json_closed_def)
qed

lemma main_state_unreadable:
  "load_state w = Inl (SysExit 1) \<Longrightarrow>
   exit_status (fst (main cfg flt w)) = 1 \<and> world_after (main cfg flt w) = w"
  by (simp add: main_def load_locations_def world_after_def Let_def split: option.splits)

text \<open>
  C3: for every prior state and every processed list, when \<open>save_state\<close> fails, the
  state file is as it was before, or it is plainly invalid: loading it fails with
  \<^verbatim>\<open>sys.exit(1)\<close>, so that a later run ends with exit status 1 and changes nothing.
  And no reader can take a half-written file for a state: the text written for a list of
  locations is closed JSON only when it is complete, every text cut off before its end
  is not, so \<^verbatim>\<open>json.load\<close> rejects it.
\<close>

theorem failed_save_leaves_state_unchanged_or_invalid:
  "(save_state flt p w = (False, w') \<longrightarrow>
      w' = w \<or>
      (state_file w' = Garbled \<and> load_state w' = Inl (SysExit 1) \<and>
       exit_status (fst (main cfg flt' w')) = 1 \<and> world_after (main cfg flt' w') = w')) \<and>
   (strict_prefix t (dump_state ps) \<longrightarrow> \<not> json_closed t) \<and>
   json_closed (dump_state ps)"
proof -
  have a: "save_state flt p w = (False, w') \<longrightarrow>
      w' = w \<or> (state_file w' = Garbled \<and> load_state w' = Inl (SysExit 1))"
    by (auto simp: save_state_def load_state_def split: save_fault.splits)
  have b: "strict_prefix t (dump_state ps) \<longrightarrow> \<not> json_closed t"
    using cut_dump_state_not_closed by blast
  from a b dump_state_closed main_state_unreadable [of w' cfg flt'] show ?thesis by blast
qed

theorem failed_save_leaves_state_unchanged_or_invalid_witness:
  "save_state write_fails (JArr [JStr ''A'', JStr ''B'']) scenario_world
     = (False, scenario_world\<lparr>state_file := Garbled\<rparr>) \<and>
   load_state (scenario_world\<lparr>state_file := Garbled\<rparr>) = Inl (SysExit 1) \<and>
   exit_status (fst (main scenario_config no_faults (scenario_world\<lparr>state_file := Garbled\<rparr>))) = 1 \<and>
   strict_prefix (''{'' @ newline_indent 1 @ json_string ''processed_locations'' @ '': ['')
     (dump_state [''A'', ''B'']) \<and>
   \<not> json_closed (''{'' @ newline_indent 1 @ json_string ''processed_locations'' @ '': ['')"
proof -
  have sv: "save_state write_fails (JArr [JStr ''A'', JStr ''B'']) scenario_world
              = (False, scenario_world\<lparr>state_file := Garbled\<rparr>)"
    by (simp add: save_state_def example_defs)
  have cut: "strict_prefix (''{'' @ newline_indent 1 @ json_string ''processed_locations'' @ '': ['')
               (dump_state [''A'', ''B''])"
    by (simp add: strict_prefix_def dump_state_def dump_body_def dump_list_def)
  note fact = failed_save_leaves_state_unchanged_or_invalid
         [of write_fails "JArr [JStr ''A'', JStr ''B'']" scenario_world
             "scenario_world\<lparr>state_file := Garbled\<rparr>" scenario_config no_faults
             "''{'' @ newline_indent 1 @ json_string ''processed_locations'' @ '': [''"
             "[''A'', ''B'']"]
  have differs: "scenario_world\<lparr>state_file := Garbled\<rparr> \<noteq> scenario_world"
    by (simp add: example_defs)
  from fact sv differs
  have ld: "load_state (scenario_world\<lparr>state_file := Garbled\<rparr>) = Inl (SysExit 1)"
    and ex: "exit_status (fst (main scenario_config no_faults
               (scenario_world\<lparr>state_file := Garbled\<rparr>))) = 1"
    by blast+
  from fact cut
  have nc: "\<not> json_closed (''{'' @ newline_indent 1 @ json_string ''processed_locations'' @ '': ['')"
    by blast
  from sv ld ex cut nc show ?thesis
    by blast
qed

end
